theory Spec2Isabelle
  imports Main "HOL-Library.Word" "HOL-Library.Sublist"
begin

unbundle bit_operations_syntax

section \<open>Binary Codec: \<open>toBase64\<close> (services/llm-service.ts, lines 13-32)\<close>

text \<open>
  The source works on a \<open>Uint8Array\<close>: every element is a byte. The bitwise operators of
  the language act on 32-bit integers, so each byte is widened to a 32-bit word before it
  is shifted and masked. \<open>BASE64_CHARS[n]\<close> is an index into the alphabet string.
\<close>

definition BASE64_CHARS :: string where
  "BASE64_CHARS = ''ABCDEFGHIJKLMNOPQRSTUVWXYZabcdefghijklmnopqrstuvwxyz0123456789+/''"

text \<open>
  The body of the \<open>for\<close> loop at index \<open>i\<close>: the four symbols appended to \<open>result\<close>.
  \<open>b2\<close> and \<open>b3\<close> are 0 when the index is past the end, and the third and fourth symbols
  are the padding \<open>=\<close> then.
\<close>

definition toBase64_step :: "8 word list \<Rightarrow> nat \<Rightarrow> string" where
  "toBase64_step bytes i =
     (let len = length bytes;
          b1 = (ucast (bytes ! i) :: 32 word);
          b2 = (if i + 1 < len then ucast (bytes ! (i + 1)) else (0 :: 32 word));
          b3 = (if i + 2 < len then ucast (bytes ! (i + 2)) else (0 :: 32 word))
      in [BASE64_CHARS ! unat (drop_bit 2 b1),
          BASE64_CHARS ! unat (push_bit 4 (b1 AND 3) OR drop_bit 4 b2),
          (if i + 1 < len then BASE64_CHARS ! unat (push_bit 2 (b2 AND 15) OR drop_bit 6 b3)
           else CHR ''=''),
          (if i + 2 < len then BASE64_CHARS ! unat (b3 AND 63) else CHR ''='')])"

text \<open>The loop \<open>for (let i = 0; i < len; i += 3)\<close>, with \<open>result\<close> as accumulator.\<close>

function toBase64_loop :: "8 word list \<Rightarrow> nat \<Rightarrow> string \<Rightarrow> string" where
  "toBase64_loop bytes i result =
     (if i < length bytes
      then toBase64_loop bytes (i + 3) (result @ toBase64_step bytes i)
      else result)"
  by pat_completeness auto
termination
  by (relation "measure (\<lambda>(bytes, i, result). length bytes - i)") auto

declare toBase64_loop.simps [simp del]

definition toBase64 :: "8 word list \<Rightarrow> string" where
  "toBase64 bytes = toBase64_loop bytes 0 []"

subsection \<open>A reference decoder (RFC 4648, section 4)\<close>

text \<open>
  The decoder follows the RFC, not the source: a symbol stands for its index in the
  alphabet, four symbols carry 24 bits, that is three bytes; a final group with one
  \<open>=\<close> carries two bytes and a final group with two \<open>=\<close> carries one byte. Padding is
  accepted in the last group only, and the bits of a padded group that carry no data must
  be zero, so that every byte sequence has one encoding.
\<close>

definition base64_index :: "char \<Rightarrow> 8 word option" where
  "base64_index c = map_option of_nat (map_of (zip BASE64_CHARS [0 ..< 64]) c)"

fun fromBase64 :: "string \<Rightarrow> 8 word list option" where
  "fromBase64 [] = Some []"
| "fromBase64 (c1 # c2 # c3 # c4 # cs) =
     (case (base64_index c1, base64_index c2) of
        (Some v1, Some v2) \<Rightarrow>
          (let o1 = push_bit 2 v1 OR drop_bit 4 v2 in
           if c3 = CHR ''=''
           then (if c4 = CHR ''='' \<and> cs = [] \<and> v2 AND 15 = 0 then Some [o1] else None)
           else (case base64_index c3 of
                   None \<Rightarrow> None
                 | Some v3 \<Rightarrow>
                     (let o2 = push_bit 4 (v2 AND 15) OR drop_bit 2 v3 in
                      if c4 = CHR ''=''
                      then (if cs = [] \<and> v3 AND 3 = 0 then Some [o1, o2] else None)
                      else (case base64_index c4 of
                              None \<Rightarrow> None
                            | Some v4 \<Rightarrow>
                                (let o3 = push_bit 6 (v3 AND 3) OR v4 in
                                 map_option (\<lambda>rest. o1 # o2 # o3 # rest) (fromBase64 cs))))))
      | _ \<Rightarrow> None)"
| "fromBase64 _ = None"


text \<open>Names for the four 6-bit groups the loop body computes from the bytes of a group.\<close>

definition sextet1 :: "8 word \<Rightarrow> 32 word" where
  "sextet1 b1 = drop_bit 2 (ucast b1)"

definition sextet2 :: "8 word \<Rightarrow> 8 word \<Rightarrow> 32 word" where
  "sextet2 b1 b2 = push_bit 4 (ucast b1 AND 3) OR drop_bit 4 (ucast b2)"

definition sextet3 :: "8 word \<Rightarrow> 8 word \<Rightarrow> 32 word" where
  "sextet3 b2 b3 = push_bit 2 (ucast b2 AND 15) OR drop_bit 6 (ucast b3)"

definition sextet4 :: "8 word \<Rightarrow> 32 word" where
  "sextet4 b3 = ucast b3 AND 63"

section \<open>JavaScript values and JSON text\<close>

text \<open>
  Every value the source handles is the result of \<open>JSON.parse\<close> or is built from strings
  and booleans, so a JavaScript value is a JSON value. Text is a \<open>string\<close>: one \<open>char\<close> per
  code unit, in the range 0 to 255. A number is kept as the literal it was read from; the
  source does no arithmetic on the numbers of a payload, it only tests them for truthiness
  and prints them back. An object is the list of its members in insertion order, a key
  occurring once; that an engine lists keys that look like array indices first is not
  modelled.
\<close>

datatype json =
    JNull
  | JBool bool
  | JNum string
  | JStr string
  | JArr "json list"
  | JObj "(string \<times> json) list"

text \<open>
  A thrown \<open>Error\<close>: its \<open>name\<close> and its \<open>message\<close>. \<open>error_toString\<close> is
  \<open>String(error)\<close> and \<open>error_text\<close> is the expression \<open>error.message || String(error)\<close>
  of the \<open>catch\<close> blocks.
\<close>

datatype js_error = JsError (err_name: string) (err_message: string)

definition error_toString :: "js_error \<Rightarrow> string" where
  "error_toString e =
     (if err_message e = [] then err_name e
      else if err_name e = [] then err_message e
      else err_name e @ '': '' @ err_message e)"

definition error_text :: "js_error \<Rightarrow> string" where
  "error_text e = (if err_message e \<noteq> [] then err_message e else error_toString e)"

text \<open>
  The errors the language itself throws in the code paths below: \<open>JSON.parse\<close> on text that
  is not JSON, a property read on \<open>null\<close>, and \<open>for ... of\<close> over a value that is not
  iterable. The message texts differ between engines; no property below depends on them.
\<close>

definition SyntaxError :: js_error where
  "SyntaxError = JsError ''SyntaxError'' ''Unexpected token in JSON''"

definition TypeError_null :: js_error where
  "TypeError_null = JsError ''TypeError'' ''Cannot read properties of null''"

definition TypeError_not_iterable :: js_error where
  "TypeError_not_iterable = JsError ''TypeError'' ''value is not iterable''"

subsection \<open>\<open>JSON.parse\<close>: the lexer\<close>

text \<open>
  The grammar is that of ECMA-404: the four whitespace characters, the six structural
  characters, strings with the escapes \<open>\" \\ \/ \b \f \n \r \t \uXXXX\<close> and no raw
  control character, numbers with optional fraction and exponent and no leading zero, and
  the literals \<open>true\<close>, \<open>false\<close>, \<open>null\<close>. \<open>None\<close> stands for the \<open>SyntaxError\<close>.
\<close>

definition is_digit :: "char \<Rightarrow> bool" where
  "is_digit c = (c \<in> set ''0123456789'')"

definition is_ws :: "char \<Rightarrow> bool" where
  "is_ws c = (c \<in> set [CHR '' '', CHR 0x09, CHR 0x0A, CHR 0x0D])"

definition hex_value :: "char \<Rightarrow> nat option" where
  "hex_value c = map_of (zip ''0123456789abcdef'' [0 ..< 16] @ zip ''ABCDEF'' [10 ..< 16]) c"

definition simple_escape :: "char \<Rightarrow> char option" where
  "simple_escape e =
     map_of [(CHR 0x22, CHR 0x22), (CHR 0x5C, CHR 0x5C), (CHR ''/'', CHR ''/''),
             (CHR ''b'', CHR 0x08), (CHR ''f'', CHR 0x0C), (CHR ''n'', CHR 0x0A),
             (CHR ''r'', CHR 0x0D), (CHR ''t'', CHR 0x09)] e"

text \<open>
  \<open>lex_string\<close> reads a string after its opening quote and gives its value and the rest
  of the input. A \<open>\uXXXX\<close> escape gives one character; a code unit above \<open>00FF\<close> is
  outside the range of \<open>char\<close> and is cut to its low byte, so the length of the string and
  with it its truthiness are the engine's.
\<close>

fun lex_string :: "string \<Rightarrow> (string \<times> string) option" where
  "lex_string [] = None"
| "lex_string (c # cs) =
     (if c = CHR 0x22 then Some ([], cs)
      else if c = CHR 0x5C then
        (case cs of
           [] \<Rightarrow> None
         | e # r \<Rightarrow>
             (if e = CHR ''u'' then
                (case r of
                   h1 # h2 # h3 # h4 # r' \<Rightarrow>
                     (case (hex_value h1, hex_value h2, hex_value h3, hex_value h4) of
                        (Some a, Some b, Some c', Some d) \<Rightarrow>
                          map_option (\<lambda>(s, rest). (char_of (((a * 16 + b) * 16 + c') * 16 + d) # s, rest))
                            (lex_string r')
                      | _ \<Rightarrow> None)
                 | _ \<Rightarrow> None)
              else (case simple_escape e of
                      None \<Rightarrow> None
                    | Some x \<Rightarrow> map_option (\<lambda>(s, rest). (x # s, rest)) (lex_string r))))
      else if of_char c < (32 :: nat) then None
      else map_option (\<lambda>(s, rest). (c # s, rest)) (lex_string cs))"

definition lex_exponent :: "string \<Rightarrow> (string \<times> string) option" where
  "lex_exponent s =
     (case s of
        [] \<Rightarrow> Some ([], s)
      | c # r \<Rightarrow>
          if c = CHR ''e'' \<or> c = CHR ''E'' then
            (let (sg, r') = (case r of
                               [] \<Rightarrow> ([], r)
                             | x # r'' \<Rightarrow> if x = CHR ''+'' \<or> x = CHR ''-'' then ([x], r'') else ([], r))
             in if takeWhile is_digit r' = [] then None
                else Some (c # sg @ takeWhile is_digit r', dropWhile is_digit r'))
          else Some ([], s))"

definition lex_fraction :: "string \<Rightarrow> (string \<times> string) option" where
  "lex_fraction s =
     (case s of
        [] \<Rightarrow> Some ([], s)
      | c # r \<Rightarrow>
          if c = CHR ''.'' then
            (if takeWhile is_digit r = [] then None
             else Some (c # takeWhile is_digit r, dropWhile is_digit r))
          else Some ([], s))"

definition lex_number :: "string \<Rightarrow> (string \<times> string) option" where
  "lex_number s =
     (let (sg, s1) = (case s of
                        [] \<Rightarrow> ([], s)
                      | c # r \<Rightarrow> if c = CHR ''-'' then ([c], r) else ([], s))
      in case s1 of
           [] \<Rightarrow> None
         | d # r \<Rightarrow>
             if \<not> is_digit d then None
             else
               (let (ip, s2) = (if d = CHR ''0'' then ([d], r)
                                else (d # takeWhile is_digit r, dropWhile is_digit r))
                in case lex_fraction s2 of
                     None \<Rightarrow> None
                   | Some (fp, s3) \<Rightarrow>
                       (case lex_exponent s3 of
                          None \<Rightarrow> None
                        | Some (ep, s4) \<Rightarrow> Some (sg @ ip @ fp @ ep, s4))))"

datatype token =
    TLBrace | TRBrace | TLBrack | TRBrack | TColon | TComma
  | TStr string | TNum string | TTrue | TFalse | TNull

text \<open>The lexers consume input; the tokenizer terminates for that reason.\<close>

lemma lex_string_shorter: "lex_string cs = Some (s, rest) \<Longrightarrow> length rest \<le> length cs"
proof (induction "length cs" arbitrary: cs s rest rule: less_induct)
  case less
  show ?case
  proof (cases cs)
    case Nil
    with less.prems show ?thesis by simp
  next
    case (Cons c cs')
    note outer = Cons
    consider (quote) "c = CHR 0x22" | (esc) "c = CHR 0x5C" | (plain) "c \<noteq> CHR 0x22" "c \<noteq> CHR 0x5C"
      by blast
    then show ?thesis
    proof cases
      case quote
      with less.prems outer show ?thesis by simp
    next
      case plain
      with less.prems outer obtain s' where "lex_string cs' = Some (s', rest)"
        by (auto split: if_splits)
      from less.hyps [OF _ this] outer show ?thesis by simp
    next
      case esc
      show ?thesis
      proof (cases cs')
        case Nil
        with less.prems outer esc show ?thesis by simp
      next
        case (Cons e r)
        show ?thesis
        proof (cases "e = CHR ''u''")
          case False
          with less.prems outer esc Cons obtain s' where "lex_string r = Some (s', rest)"
            by (auto split: option.splits)
          from less.hyps [OF _ this] outer Cons show ?thesis by simp
        next
          case True
          with less.prems outer esc Cons obtain h1 h2 h3 h4 r' where r': "r = h1 # h2 # h3 # h4 # r'"
            by (auto split: list.splits)
          with less.prems outer esc Cons True obtain s' where "lex_string r' = Some (s', rest)"
            by (auto split: option.splits)
          from less.hyps [OF _ this] outer Cons r' show ?thesis by simp
        qed
      qed
    qed
  qed
qed

lemma lex_fraction_shorter: "lex_fraction s = Some (lit, rest) \<Longrightarrow> length rest \<le> length s"
  using length_dropWhile_le [of is_digit "tl s"]
  by (auto simp: lex_fraction_def split: list.splits if_splits)

lemma lex_exponent_shorter: "lex_exponent s = Some (lit, rest) \<Longrightarrow> length rest \<le> length s"
  using length_dropWhile_le [of is_digit "tl s"] length_dropWhile_le [of is_digit "tl (tl s)"]
  by (auto simp: lex_exponent_def Let_def split: list.splits if_splits)

lemma lex_number_shorter: "lex_number s = Some (lit, rest) \<Longrightarrow> length rest < length s"
proof -
  assume a: "lex_number s = Some (lit, rest)"
  define s1 where "s1 = (case s of [] \<Rightarrow> s | c # r \<Rightarrow> if c = CHR ''-'' then r else s)"
  have s1: "length s1 \<le> length s" by (auto simp: s1_def split: list.splits)
  from a obtain d r where dr: "s1 = d # r"
    by (cases s1) (auto simp: lex_number_def s1_def Let_def split: list.splits if_splits)
  define s2 where "s2 = (if d = CHR ''0'' then r else dropWhile is_digit r)"
  have s2: "length s2 \<le> length r" by (simp add: s2_def length_dropWhile_le)
  from a dr obtain fp s3 ep where f: "lex_fraction s2 = Some (fp, s3)" and e: "lex_exponent s3 = Some (ep, rest)"
    by (auto simp: lex_number_def s1_def s2_def Let_def split: list.splits if_splits option.splits)
  from lex_fraction_shorter [OF f] lex_exponent_shorter [OF e] s1 s2 dr show ?thesis by simp
qed

lemma measure_tail: "(cs, c # cs) \<in> measure length"
  by simp

lemma measure_drop: "(drop n cs, c # cs) \<in> measure length"
  by simp

function tokenize :: "string \<Rightarrow> token list option" where
  "tokenize [] = Some []"
| "tokenize (c # cs) =
     (if is_ws c then tokenize cs
      else if c = CHR ''{'' then map_option ((#) TLBrace) (tokenize cs)
      else if c = CHR ''}'' then map_option ((#) TRBrace) (tokenize cs)
      else if c = CHR ''['' then map_option ((#) TLBrack) (tokenize cs)
      else if c = CHR '']'' then map_option ((#) TRBrack) (tokenize cs)
      else if c = CHR '':'' then map_option ((#) TColon) (tokenize cs)
      else if c = CHR '','' then map_option ((#) TComma) (tokenize cs)
      else if c = CHR 0x22 then
        (case lex_string cs of
           None \<Rightarrow> None
         | Some (s, rest) \<Rightarrow> map_option ((#) (TStr s)) (tokenize rest))
      else if c = CHR ''-'' \<or> is_digit c then
        (case lex_number (c # cs) of
           None \<Rightarrow> None
         | Some (lit, rest) \<Rightarrow> map_option ((#) (TNum lit)) (tokenize rest))
      else if take 4 (c # cs) = ''true'' then map_option ((#) TTrue) (tokenize (drop 3 cs))
      else if take 5 (c # cs) = ''false'' then map_option ((#) TFalse) (tokenize (drop 4 cs))
      else if take 4 (c # cs) = ''null'' then map_option ((#) TNull) (tokenize (drop 3 cs))
      else None)"
  by pat_completeness auto
termination
proof (relation "measure length", goal_cases)
  case 1
  show ?case by (rule wf_measure)
next
  case (9 c cs x2 x y)
  from 9(9,10) have "lex_string cs = Some (x, y)" by simp
  from lex_string_shorter [OF this] show ?case by simp
next
  case (10 c cs x2 x y)
  from 10(10,11) have "lex_number (c # cs) = Some (x, y)" by simp
  from lex_number_shorter [OF this] show ?case by simp
qed (rule measure_tail measure_drop)+

declare tokenize.simps [simp del]

subsection \<open>\<open>JSON.parse\<close>: the parser\<close>

text \<open>
  The parser runs over the tokens with an explicit stack of the arrays and objects that
  are open: \<open>parse_value\<close> expects a value, \<open>parse_after\<close> has just read one. A trailing
  comma, a missing colon, an unclosed bracket and input after the value are errors.
\<close>

text \<open>Assigning a member to an object: an existing key keeps its place and takes the new value.\<close>

fun obj_put :: "string \<Rightarrow> json \<Rightarrow> (string \<times> json) list \<Rightarrow> (string \<times> json) list" where
  "obj_put k v [] = [(k, v)]"
| "obj_put k v ((k', v') # kvs) = (if k = k' then (k, v) # kvs else (k', v') # obj_put k v kvs)"

datatype frame =
    ArrF "json list"
  | ObjF "(string \<times> json) list" string

fun parse_value :: "frame list \<Rightarrow> token list \<Rightarrow> json option"
and parse_after :: "json \<Rightarrow> frame list \<Rightarrow> token list \<Rightarrow> json option" where
  "parse_value st [] = None"
| "parse_value st (TNull # ts) = parse_after JNull st ts"
| "parse_value st (TTrue # ts) = parse_after (JBool True) st ts"
| "parse_value st (TFalse # ts) = parse_after (JBool False) st ts"
| "parse_value st (TNum lit # ts) = parse_after (JNum lit) st ts"
| "parse_value st (TStr s # ts) = parse_after (JStr s) st ts"
| "parse_value st (TLBrack # ts) =
     (case ts of
        TRBrack # ts' \<Rightarrow> parse_after (JArr []) st ts'
      | _ \<Rightarrow> parse_value (ArrF [] # st) ts)"
| "parse_value st (TLBrace # ts) =
     (case ts of
        TRBrace # ts' \<Rightarrow> parse_after (JObj []) st ts'
      | TStr k # TColon # ts' \<Rightarrow> parse_value (ObjF [] k # st) ts'
      | _ \<Rightarrow> None)"
| "parse_value st (TRBrace # ts) = None"
| "parse_value st (TRBrack # ts) = None"
| "parse_value st (TColon # ts) = None"
| "parse_value st (TComma # ts) = None"
| "parse_after v [] ts = (if ts = [] then Some v else None)"
| "parse_after v (ArrF acc # st) ts =
     (case ts of
        TComma # ts' \<Rightarrow> parse_value (ArrF (acc @ [v]) # st) ts'
      | TRBrack # ts' \<Rightarrow> parse_after (JArr (acc @ [v])) st ts'
      | _ \<Rightarrow> None)"
| "parse_after v (ObjF acc k # st) ts =
     (case ts of
        TComma # TStr k' # TColon # ts' \<Rightarrow> parse_value (ObjF (obj_put k v acc) k' # st) ts'
      | TRBrace # ts' \<Rightarrow> parse_after (JObj (obj_put k v acc)) st ts'
      | _ \<Rightarrow> None)"

definition JSON_parse :: "string \<Rightarrow> json option" where
  "JSON_parse text = (case tokenize text of None \<Rightarrow> None | Some ts \<Rightarrow> parse_value [] ts)"

subsection \<open>\<open>JSON.stringify\<close>\<close>

definition hex_digit :: "nat \<Rightarrow> char" where
  "hex_digit n = ''0123456789abcdef'' ! n"

definition escape_char :: "char \<Rightarrow> string" where
  "escape_char c =
     (if c = CHR 0x22 then [CHR 0x5C, CHR 0x22]
      else if c = CHR 0x5C then [CHR 0x5C, CHR 0x5C]
      else if c = CHR 0x08 then [CHR 0x5C, CHR ''b'']
      else if c = CHR 0x0C then [CHR 0x5C, CHR ''f'']
      else if c = CHR 0x0A then [CHR 0x5C, CHR ''n'']
      else if c = CHR 0x0D then [CHR 0x5C, CHR ''r'']
      else if c = CHR 0x09 then [CHR 0x5C, CHR ''t'']
      else if of_char c < (32 :: nat)
        then [CHR 0x5C, CHR ''u'', CHR ''0'', CHR ''0'',
              hex_digit (of_char c div 16), hex_digit (of_char c mod 16)]
      else [c])"

definition quote :: "string \<Rightarrow> string" where
  "quote s = CHR 0x22 # concat (map escape_char s) @ [CHR 0x22]"

fun commas :: "string list \<Rightarrow> string" where
  "commas [] = []"
| "commas [x] = x"
| "commas (x # y # ys) = x @ '','' @ commas (y # ys)"

fun JSON_stringify :: "json \<Rightarrow> string" where
  "JSON_stringify JNull = ''null''"
| "JSON_stringify (JBool b) = (if b then ''true'' else ''false'')"
| "JSON_stringify (JNum lit) = lit"
| "JSON_stringify (JStr s) = quote s"
| "JSON_stringify (JArr xs) = ''['' @ commas (map JSON_stringify xs) @ '']''"
| "JSON_stringify (JObj kvs) =
     ''{'' @ commas (map (\<lambda>(k, v). quote k @ '':'' @ JSON_stringify v) kvs) @ ''}''"

declare JSON_stringify.simps [simp del]

subsection \<open>Truthiness, property access, string conversion\<close>

text \<open>
  Truthiness of a number: a literal is zero when its mantissa has no digit other than 0.
  The rounding of the literal to a double, by which a literal below the smallest double is
  zero too, is not modelled.
\<close>

definition num_is_zero :: "string \<Rightarrow> bool" where
  "num_is_zero lit =
     list_all (\<lambda>c. c \<notin> set ''123456789'')
       (takeWhile (\<lambda>c. c \<noteq> CHR ''e'' \<and> c \<noteq> CHR ''E'') lit)"

fun truthy :: "json \<Rightarrow> bool" where
  "truthy JNull = False"
| "truthy (JBool b) = b"
| "truthy (JNum lit) = (\<not> num_is_zero lit)"
| "truthy (JStr s) = (s \<noteq> [])"
| "truthy (JArr xs) = True"
| "truthy (JObj kvs) = True"

text \<open>\<open>undefined\<close> is \<open>None\<close>; it is falsy.\<close>

fun truthy_opt :: "json option \<Rightarrow> bool" where
  "truthy_opt None = False"
| "truthy_opt (Some v) = truthy v"

text \<open>
  Reading a property. On \<open>null\<close> the read throws a \<open>TypeError\<close>; on an object it gives the
  member or \<open>undefined\<close>; on a string, number, boolean or array it gives \<open>undefined\<close> for
  every name the source reads (\<open>model\<close>, \<open>messages\<close>, \<open>error\<close>, \<open>choices\<close>, \<open>message\<close>,
  \<open>content\<close>, \<open>trade_decisions\<close>, \<open>asset\<close>, \<open>action\<close>, \<open>allocation_usd\<close>, \<open>success\<close>): none
  of them is a built-in member. \<open>get_index0\<close> is the read \<open>v[0]\<close>.
\<close>

fun js_member :: "json \<Rightarrow> string \<Rightarrow> json option" where
  "js_member (JObj kvs) k = map_of kvs k"
| "js_member v k = None"

definition get_prop :: "json \<Rightarrow> string \<Rightarrow> js_error + json option" where
  "get_prop v k = (if v = JNull then Inl TypeError_null else Inr (js_member v k))"

fun get_index0 :: "json \<Rightarrow> js_error + json option" where
  "get_index0 JNull = Inl TypeError_null"
| "get_index0 (JArr xs) = Inr (case xs of [] \<Rightarrow> None | x # _ \<Rightarrow> Some x)"
| "get_index0 (JStr s) = Inr (case s of [] \<Rightarrow> None | c # _ \<Rightarrow> Some (JStr [c]))"
| "get_index0 (JObj kvs) = Inr (map_of kvs ''0'')"
| "get_index0 v = Inr None"

text \<open>
  \<open>JSON.parse\<close> converts its argument to a string first. The results of the fetch functions
  are declared \<open>string\<close> but the completion \<open>content\<close> is returned as it is found, so the
  conversion is part of the model.
\<close>

fun ToString :: "json \<Rightarrow> string" where
  "ToString JNull = ''null''"
| "ToString (JBool b) = (if b then ''true'' else ''false'')"
| "ToString (JNum lit) = lit"
| "ToString (JStr s) = s"
| "ToString (JArr xs) = commas (map (\<lambda>x. if x = JNull then [] else ToString x) xs)"
| "ToString (JObj kvs) = ''[object Object]''"

definition JSON_parse_value :: "json \<Rightarrow> json option" where
  "JSON_parse_value v = JSON_parse (ToString v)"

text \<open>A status code in a template literal: its decimal digits.\<close>

fun digit_char :: "nat \<Rightarrow> char" where
  "digit_char n = ''0123456789'' ! (n mod 10)"

fun show_nat :: "nat \<Rightarrow> string" where
  "show_nat n = (if n < 10 then [digit_char n] else show_nat (n div 10) @ [digit_char n])"

declare show_nat.simps [simp del]

text \<open>\<open>new TextEncoder().encode\<close>: the UTF-8 bytes of the text.\<close>

definition TextEncoder_encode :: "string \<Rightarrow> 8 word list" where
  "TextEncoder_encode s =
     concat (map (\<lambda>c. let n = (of_char c :: nat) in
                        if n < 128 then [of_nat n]
                        else [of_nat (192 + n div 64), of_nat (128 + n mod 64)]) s)"

section \<open>The runtime handed to the workflow\<close>

text \<open>
  The SDK is not part of the repository. A \<open>sendRequester\<close> is what one executor of an
  outbound call does with a request: it throws or it answers with a status code and a body
  (the body as the text that \<open>new TextDecoder().decode\<close> gives). The runtime holds the
  configuration, the executors that run an outbound call redundantly, the error that a
  failed consensus throws, and the clock.
\<close>

record request =
  url :: string
  http_method :: string
  headers :: "string \<rightharpoonup> string"
  req_body :: string

record response =
  statusCode :: nat
  body :: string

type_synonym sendRequester = "request \<Rightarrow> js_error + response"

record Config =
  callbackUrl :: string
  openRouterApiKey :: "string option"

record runtime =
  config :: Config
  executions :: "sendRequester list"
  consensus_failure :: js_error
  now_ISO :: string

text \<open>
  Modelled from the spec: \<open>consensusIdenticalAggregation\<close> and \<open>HTTPClient.sendRequest\<close> of
  the SDK, which are not under src/. The spec (sections 4.3 and 5): the call is executed by
  several independent executors, the results of all executions must be identical for one
  result to be accepted, and a disagreement fails the call; no partial or majority result
  is made. \<open>run_consensus\<close> runs the fetch function on every executor and aggregates.
\<close>

definition consensusIdenticalAggregation :: "js_error \<Rightarrow> json list \<Rightarrow> js_error + json" where
  "consensusIdenticalAggregation failure results =
     (case results of
        [] \<Rightarrow> Inl failure
      | r # rs \<Rightarrow> if list_all (\<lambda>x. x = r) rs then Inr r else Inl failure)"

definition run_consensus :: "runtime \<Rightarrow> (sendRequester \<Rightarrow> json) \<Rightarrow> js_error + json" where
  "run_consensus rt fetchAndParse =
     consensusIdenticalAggregation (consensus_failure rt) (map fetchAndParse (executions rt))"

section \<open>\<open>LLMService\<close> (services/llm-service.ts, lines 75-233)\<close>

definition baseUrl :: string where
  "baseUrl = ''https://openrouter.ai/api/v1/chat/completions''"

definition sendRequest_req :: "string \<Rightarrow> json \<Rightarrow> request" where
  "sendRequest_req apiKey payload =
     \<lparr> url = baseUrl,
       http_method = ''POST'',
       headers = [''Authorization'' \<mapsto> ''Bearer '' @ apiKey,
                  ''Content-Type'' \<mapsto> ''application/json''],
       req_body = toBase64 (TextEncoder_encode (JSON_stringify payload)) \<rparr>"

text \<open>
  Lines 124-129: \<open>data.choices && data.choices[0] && data.choices[0].message\<close>, then the
  truthy \<open>content\<close>. \<open>Some content\<close> when the function returns the content there.
\<close>

definition extract_content :: "json \<Rightarrow> js_error + json option" where
  "extract_content data =
     (case get_prop data ''choices'' of
        Inl e \<Rightarrow> Inl e
      | Inr None \<Rightarrow> Inr None
      | Inr (Some choices) \<Rightarrow>
          if \<not> truthy choices then Inr None
          else (case get_index0 choices of
                  Inl e \<Rightarrow> Inl e
                | Inr None \<Rightarrow> Inr None
                | Inr (Some choice) \<Rightarrow>
                    if \<not> truthy choice then Inr None
                    else (case get_prop choice ''message'' of
                            Inl e \<Rightarrow> Inl e
                          | Inr None \<Rightarrow> Inr None
                          | Inr (Some message) \<Rightarrow>
                              if \<not> truthy message then Inr None
                              else (case get_prop message ''content'' of
                                      Inl e \<Rightarrow> Inl e
                                    | Inr None \<Rightarrow> Inr None
                                    | Inr (Some content) \<Rightarrow>
                                        if truthy content then Inr (Some content)
                                        else Inr None))))"

text \<open>
  The \<open>try\<close> block of \<open>fetchAndParse\<close> in \<open>sendRequest\<close> (lines 97-131), \<open>Inl\<close> for what it
  throws, and the function with its \<open>catch\<close> (lines 132-134).
\<close>

definition sendRequest_try :: "string \<Rightarrow> json \<Rightarrow> sendRequester \<Rightarrow> js_error + json" where
  "sendRequest_try apiKey payload sendRequester =
     (case sendRequester (sendRequest_req apiKey payload) of
        Inl e \<Rightarrow> Inl e
      | Inr resp \<Rightarrow>
          if statusCode resp \<noteq> 200
          then Inr (JStr (JSON_stringify
                 (JObj [(''error'', JStr (''HTTP '' @ show_nat (statusCode resp) @ '': '' @ body resp))])))
          else (case JSON_parse (body resp) of
                  None \<Rightarrow> Inl SyntaxError
                | Some data \<Rightarrow>
                    (case extract_content data of
                       Inl e \<Rightarrow> Inl e
                     | Inr (Some content) \<Rightarrow> Inr content
                     | Inr None \<Rightarrow>
                         Inr (JStr (JSON_stringify
                           (JObj [(''error'', JStr ''No content in response''), (''raw'', data)]))))))"

definition sendRequest_fetchAndParse :: "string \<Rightarrow> json \<Rightarrow> sendRequester \<Rightarrow> json" where
  "sendRequest_fetchAndParse apiKey payload sendRequester =
     (case sendRequest_try apiKey payload sendRequester of
        Inl error \<Rightarrow> JStr (JSON_stringify (JObj [(''error'', JStr (error_text error))]))
      | Inr v \<Rightarrow> v)"

text \<open>
  Lines 137-157. \<open>null\<close> is \<open>JNull\<close>. The inner \<open>try\<close> covers the parse and the read of
  \<open>parsed.error\<close>; whatever it throws is dropped and the result is returned as it is. The
  constructor \<open>new HTTPClient()\<close> before the \<open>try\<close> and the calls of \<open>runtime.log\<close> are
  taken not to throw, here and in \<open>sendToServer\<close>.
\<close>

definition sendRequest :: "runtime \<Rightarrow> string \<Rightarrow> json \<Rightarrow> json" where
  "sendRequest rt apiKey payload =
     (case run_consensus rt (sendRequest_fetchAndParse apiKey payload) of
        Inl error \<Rightarrow> JNull
      | Inr result \<Rightarrow>
          (case JSON_parse_value result of
             None \<Rightarrow> result
           | Some parsed \<Rightarrow>
               (case get_prop parsed ''error'' of
                  Inl e \<Rightarrow> result
                | Inr err \<Rightarrow> if truthy_opt err then JNull else result)))"

definition getTradingDecisions :: "runtime \<Rightarrow> string \<Rightarrow> json \<Rightarrow> json" where
  "getTradingDecisions rt apiKey payload =
     (let response = sendRequest rt apiKey payload
      in if \<not> truthy response then JNull
         else (case JSON_parse_value response of
                 None \<Rightarrow> JNull
               | Some v \<Rightarrow> v))"

text \<open>
  Lines 198-206: the default header first, the caller's headers spread over it.
\<close>

definition sendToServer_req :: "string \<Rightarrow> json \<Rightarrow> (string \<rightharpoonup> string) option \<Rightarrow> request" where
  "sendToServer_req serverUrl data hdrs =
     \<lparr> url = serverUrl,
       http_method = ''POST'',
       headers = [''Content-Type'' \<mapsto> ''application/json'']
                   ++ (case hdrs of None \<Rightarrow> Map.empty | Some h \<Rightarrow> h),
       req_body = toBase64 (TextEncoder_encode (JSON_stringify data)) \<rparr>"

definition sendToServer_try ::
  "string \<Rightarrow> json \<Rightarrow> (string \<rightharpoonup> string) option \<Rightarrow> sendRequester \<Rightarrow> js_error + json" where
  "sendToServer_try serverUrl data hdrs sendRequester =
     (case sendRequester (sendToServer_req serverUrl data hdrs) of
        Inl e \<Rightarrow> Inl e
      | Inr resp \<Rightarrow>
          if 200 \<le> statusCode resp \<and> statusCode resp < 300
          then Inr (JStr (JSON_stringify
                 (JObj [(''success'', JBool True), (''response'', JStr (body resp))])))
          else Inr (JStr (JSON_stringify
                 (JObj [(''success'', JBool False),
                        (''error'', JStr (''HTTP '' @ show_nat (statusCode resp) @ '': '' @ body resp))]))))"

definition sendToServer_fetchAndParse ::
  "string \<Rightarrow> json \<Rightarrow> (string \<rightharpoonup> string) option \<Rightarrow> sendRequester \<Rightarrow> json" where
  "sendToServer_fetchAndParse serverUrl data hdrs sendRequester =
     (case sendToServer_try serverUrl data hdrs sendRequester of
        Inl error \<Rightarrow>
          JStr (JSON_stringify (JObj [(''success'', JBool False), (''error'', JStr (error_text error))]))
      | Inr v \<Rightarrow> v)"

definition sendToServer ::
  "runtime \<Rightarrow> string \<Rightarrow> json \<Rightarrow> (string \<rightharpoonup> string) option \<Rightarrow> json" where
  "sendToServer rt serverUrl data hdrs =
     (case run_consensus rt (sendToServer_fetchAndParse serverUrl data hdrs) of
        Inl error \<Rightarrow> JObj [(''success'', JBool False), (''error'', JStr (error_text error))]
      | Inr resultJson \<Rightarrow>
          (case JSON_parse_value resultJson of
             None \<Rightarrow> JObj [(''success'', JBool False), (''error'', JStr (error_text SyntaxError))]
           | Some v \<Rightarrow> v))"

section \<open>The trigger handlers (main.ts)\<close>

definition onCronTrigger :: "runtime \<Rightarrow> string" where
  "onCronTrigger rt = ''Hello world!''"


text \<open>
  Lines 43-48 write log lines. What is logged is not modelled; the reads that build the
  lines are, since a read on \<open>null\<close> and a loop over a value that is not iterable throw
  inside the \<open>try\<close> of line 41.
\<close>

fun log_decisions :: "json list \<Rightarrow> js_error + unit" where
  "log_decisions [] = Inr ()"
| "log_decisions (decision # rest) =
     (case get_prop decision ''asset'' of
        Inl e \<Rightarrow> Inl e
      | Inr asset \<Rightarrow>
          (case get_prop decision ''action'' of
             Inl e \<Rightarrow> Inl e
           | Inr action \<Rightarrow>
               (case get_prop decision ''allocation_usd'' of
                  Inl e \<Rightarrow> Inl e
                | Inr allocation_usd \<Rightarrow> log_decisions rest)))"

definition log_trade_decisions :: "json \<Rightarrow> js_error + unit" where
  "log_trade_decisions parsed =
     (case get_prop parsed ''trade_decisions'' of
        Inl e \<Rightarrow> Inl e
      | Inr None \<Rightarrow> Inr ()
      | Inr (Some trade_decisions) \<Rightarrow>
          if \<not> truthy trade_decisions then Inr ()
          else (case trade_decisions of
                  JArr ds \<Rightarrow> log_decisions ds
                | JStr s \<Rightarrow> log_decisions (map (\<lambda>c. JStr [c]) s)
                | _ \<Rightarrow> Inl TypeError_not_iterable))"

text \<open>Lines 40-52: the value of \<open>parsedResponse\<close> after the \<open>try\<close>.\<close>

definition parsedResponse :: "json \<Rightarrow> json" where
  "parsedResponse response =
     (case JSON_parse_value response of
        None \<Rightarrow> JObj [(''raw_response'', response)]
      | Some parsed \<Rightarrow>
          (case log_trade_decisions parsed of
             Inl e \<Rightarrow> JObj [(''raw_response'', response)]
           | Inr u \<Rightarrow> parsed))"



section \<open>The declared shape of a trading decision (services/llm-service.ts, lines 59-73)\<close>

text \<open>
  The types \<open>TradeDecision\<close> and \<open>TradingDecisionResponse\<close> as predicates on values: the
  members the type declares, each of the declared kind.
\<close>

fun is_string :: "json option \<Rightarrow> bool" where
  "is_string (Some (JStr s)) = True"
| "is_string v = False"

fun is_number :: "json option \<Rightarrow> bool" where
  "is_number (Some (JNum n)) = True"
| "is_number v = False"

fun is_number_or_null :: "json option \<Rightarrow> bool" where
  "is_number_or_null (Some (JNum n)) = True"
| "is_number_or_null (Some JNull) = True"
| "is_number_or_null v = False"

definition is_TradeDecision :: "json \<Rightarrow> bool" where
  "is_TradeDecision d =
     (is_string (js_member d ''asset'') \<and>
      js_member d ''action'' \<in> {Some (JStr ''buy''), Some (JStr ''sell''), Some (JStr ''hold'')} \<and>
      is_number (js_member d ''allocation_usd'') \<and>
      is_number_or_null (js_member d ''tp_price'') \<and>
      is_number_or_null (js_member d ''sl_price'') \<and>
      is_string (js_member d ''exit_plan'') \<and>
      is_string (js_member d ''rationale''))"

definition is_TradingDecisionResponse :: "json \<Rightarrow> bool" where
  "is_TradingDecisionResponse v =
     (is_string (js_member v ''reasoning'') \<and>
      (case js_member v ''trade_decisions'' of
         Some (JArr ds) \<Rightarrow> list_all is_TradeDecision ds
       | _ \<Rightarrow> False))"

section \<open>Concrete runtimes and payloads\<close>

text \<open>
  Inputs on which the theorems below are evaluated: a runtime with given executors and
  callback URL, an executor that answers every request with one status and body, the body of
  a provider response that carries a completion, and an executor that answers the provider
  URL with such a body and every other URL with \<open>201 ack\<close>. The completion, its value and
  the request are the end-to-end example of the specification.
\<close>

definition test_runtime :: "sendRequester list \<Rightarrow> string \<Rightarrow> runtime" where
  "test_runtime execs cb =
     \<lparr> config = \<lparr> callbackUrl = cb, openRouterApiKey = Some ''sk-test'' \<rparr>,
       executions = execs,
       consensus_failure = JsError ''Error'' ''consensus: results differ'',
       now_ISO = ''2025-01-01T00:00:00.000Z'' \<rparr>"

definition answers :: "nat \<Rightarrow> string \<Rightarrow> sendRequester" where
  "answers code text = (\<lambda>req. Inr \<lparr> statusCode = code, body = text \<rparr>)"

definition completion_body :: "string \<Rightarrow> string" where
  "completion_body content =
     JSON_stringify (JObj [(''choices'', JArr [JObj [(''message'', JObj [(''content'', JStr content)])]])])"





section \<open>Properties of the Binary Codec\<close>

lemma alphabet_length: "length BASE64_CHARS = 64" by (simp add: BASE64_CHARS_def)
lemma alphabet_distinct: "distinct BASE64_CHARS" by (simp add: BASE64_CHARS_def)
lemma alphabet_no_pad: "CHR ''='' \<notin> set BASE64_CHARS" by (simp add: BASE64_CHARS_def)

lemma nth_not_pad: "n < 64 \<Longrightarrow> BASE64_CHARS ! n \<noteq> CHR ''=''"
  by (metis alphabet_no_pad nth_mem alphabet_length)

lemma nth_not_pad': "n < 64 \<Longrightarrow> CHR ''='' \<noteq> BASE64_CHARS ! n"
  using nth_not_pad [of n] by auto

lemma base64_index_nth: "n < 64 \<Longrightarrow> base64_index (BASE64_CHARS ! n) = Some (of_nat n)"
  using map_of_zip_nth [of BASE64_CHARS "[0 ..< 64]" n]
  by (simp add: base64_index_def alphabet_length alphabet_distinct)

lemma m3: "(3 :: 'a::len word) = mask 2" by (simp add: mask_eq_exp_minus_1)
lemma m15: "(15 :: 'a::len word) = mask 4" by (simp add: mask_eq_exp_minus_1)
lemma m63: "(63 :: 'a::len word) = mask 6" by (simp add: mask_eq_exp_minus_1)

lemma sub2: "2 \<le> n \<Longrightarrow> Suc (Suc (n - 2)) = n" by simp

lemma sextet_bound: "take_bit 6 (s :: 32 word) = s \<Longrightarrow> unat s < 64"
proof -
  assume "take_bit 6 s = s"
  then have "unat s = take_bit 6 (unat s)" by (metis unsigned_take_bit_eq)
  also have "\<dots> < 2 ^ 6" by (rule take_bit_nat_less_exp)
  finally show ?thesis by simp
qed

lemma s1: "unat (sextet1 b) < 64"
  by (rule sextet_bound, rule bit_word_eqI) (auto simp: sextet1_def bit_simps dest: bit_imp_le_length)
lemma s2: "unat (sextet2 b c) < 64"
  unfolding sextet2_def m3
  by (rule sextet_bound, rule bit_word_eqI) (auto simp: bit_simps dest: bit_imp_le_length)
lemma s3: "unat (sextet3 b c) < 64"
  unfolding sextet3_def m15
  by (rule sextet_bound, rule bit_word_eqI) (auto simp: bit_simps dest: bit_imp_le_length)
lemma s4: "unat (sextet4 b) < 64"
  unfolding sextet4_def m63
  by (rule sextet_bound, rule bit_word_eqI) (auto simp: bit_simps dest: bit_imp_le_length)

lemma o1: "push_bit 2 (ucast (sextet1 b1) :: 8 word) OR drop_bit 4 (ucast (sextet2 b1 b2)) = b1"
  unfolding sextet1_def sextet2_def m3
  by (rule bit_word_eqI) (auto simp: bit_simps sub2 dest: bit_imp_le_length)

lemma o2: "push_bit 4 ((ucast (sextet2 b1 b2) :: 8 word) AND 15) OR drop_bit 2 (ucast (sextet3 b2 b3)) = b2"
  unfolding sextet2_def sextet3_def m3 m15
  by (rule bit_word_eqI) (auto simp: bit_simps sub2 dest: bit_imp_le_length)

lemma o3: "push_bit 6 ((ucast (sextet3 b2 b3) :: 8 word) AND 3) OR ucast (sextet4 b3) = b3"
  unfolding sextet3_def sextet4_def m3 m15 m63
  by (rule bit_word_eqI) (auto simp: bit_simps sub2 dest: bit_imp_le_length)

lemma spare2: "(ucast (sextet2 b1 0) :: 8 word) AND 15 = 0"
  unfolding sextet2_def m3 m15
  by (rule bit_word_eqI) (auto simp: bit_simps dest: bit_imp_le_length)

lemma spare3: "(ucast (sextet3 b2 0) :: 8 word) AND 3 = 0"
  unfolding sextet3_def m3 m15
  by (rule bit_word_eqI) (auto simp: bit_simps dest: bit_imp_le_length)

lemma index_sextet: "unat s < 64 \<Longrightarrow> base64_index (BASE64_CHARS ! unat (s :: 32 word)) = Some (ucast s)"
  by (simp add: base64_index_nth)

lemma step3: "i + 2 < length bytes \<Longrightarrow> toBase64_step bytes i =
   [BASE64_CHARS ! unat (sextet1 (bytes ! i)), BASE64_CHARS ! unat (sextet2 (bytes ! i) (bytes ! (i+1))),
    BASE64_CHARS ! unat (sextet3 (bytes ! (i+1)) (bytes ! (i+2))), BASE64_CHARS ! unat (sextet4 (bytes ! (i+2)))]"
  by (simp add: toBase64_step_def sextet1_def sextet2_def sextet3_def sextet4_def Let_def)

lemma step2: "i + 2 = length bytes \<Longrightarrow> toBase64_step bytes i =
   [BASE64_CHARS ! unat (sextet1 (bytes ! i)), BASE64_CHARS ! unat (sextet2 (bytes ! i) (bytes ! (i+1))),
    BASE64_CHARS ! unat (sextet3 (bytes ! (i+1)) 0), CHR ''='']"
  by (simp add: toBase64_step_def sextet1_def sextet2_def sextet3_def sextet4_def Let_def)

lemma step1: "i + 1 = length bytes \<Longrightarrow> toBase64_step bytes i =
   [BASE64_CHARS ! unat (sextet1 (bytes ! i)), BASE64_CHARS ! unat (sextet2 (bytes ! i) 0),
    CHR ''='', CHR ''='']"
  by (simp add: toBase64_step_def sextet1_def sextet2_def sextet3_def sextet4_def Let_def)

lemma loop_acc: "toBase64_loop bytes i acc = acc @ toBase64_loop bytes i []"
proof (induction "length bytes - i" arbitrary: i acc rule: less_induct)
  case less
  show ?case
  proof (cases "i < length bytes")
    case True
    then have d: "length bytes - (i + 3) < length bytes - i" by simp
    have "toBase64_loop bytes i acc = toBase64_loop bytes (i + 3) (acc @ toBase64_step bytes i)"
      using True by (simp add: toBase64_loop.simps [of bytes i acc])
    also have "\<dots> = (acc @ toBase64_step bytes i) @ toBase64_loop bytes (i + 3) []"
      by (rule less [OF d])
    also have "\<dots> = acc @ (toBase64_step bytes i @ toBase64_loop bytes (i + 3) [])" by simp
    also have "toBase64_step bytes i @ toBase64_loop bytes (i + 3) [] = toBase64_loop bytes (i + 3) ([] @ toBase64_step bytes i)"
      by (simp add: less [OF d, of "toBase64_step bytes i"])
    also have "\<dots> = toBase64_loop bytes i []"
      using True by (simp add: toBase64_loop.simps [of bytes i "[]"])
    finally show ?thesis .
  next
    case False
    then show ?thesis by (simp add: toBase64_loop.simps [of bytes i])
  qed
qed

lemma loop_unfold: "i < length bytes \<Longrightarrow> toBase64_loop bytes i [] = toBase64_step bytes i @ toBase64_loop bytes (i + 3) []"
  using loop_acc [of bytes "i + 3" "toBase64_step bytes i"]
  by (simp add: toBase64_loop.simps [of bytes i "[]"])

lemma loop_done: "length bytes \<le> i \<Longrightarrow> toBase64_loop bytes i [] = []"
  by (simp add: toBase64_loop.simps [of bytes i "[]"])

lemma decode_loop: "fromBase64 (toBase64_loop bytes i []) = Some (drop i bytes)"
proof (induction "length bytes - i" arbitrary: i rule: less_induct)
  case less
  consider "length bytes \<le> i" | "i + 1 = length bytes" | "i + 2 = length bytes" | "i + 2 < length bytes"
    by linarith
  then show ?case
  proof cases
    case 1
    then show ?thesis by (simp add: loop_done)
  next
    case 2
    then have dr: "drop i bytes = [bytes ! i]"
      using Cons_nth_drop_Suc [of i bytes] by simp
    from 2 show ?thesis
      using o1 [of "bytes ! i" 0]
      by (simp add: loop_unfold loop_done step1 dr index_sextet s1 s2 spare2)
  next
    case 3
    then have dr: "drop i bytes = [bytes ! i, bytes ! (i + 1)]"
      using Cons_nth_drop_Suc [of i bytes] Cons_nth_drop_Suc [of "i + 1" bytes] by simp
    from 3 show ?thesis
      using o1 [of "bytes ! i" "bytes ! (i + 1)"] o2 [of "bytes ! i" "bytes ! (i + 1)" 0]
      by (simp add: loop_unfold loop_done step2 dr index_sextet s1 s2 s3 nth_not_pad spare3)
  next
    case 4
    then have d: "length bytes - (i + 3) < length bytes - i" by simp
    from 4 have dr: "drop i bytes = bytes ! i # bytes ! (i + 1) # bytes ! (i + 2) # drop (i + 3) bytes"
      using Cons_nth_drop_Suc [of i bytes] Cons_nth_drop_Suc [of "i + 1" bytes]
        Cons_nth_drop_Suc [of "i + 2" bytes] by (simp add: numeral_3_eq_3)
    from 4 show ?thesis
      using o1 [of "bytes ! i" "bytes ! (i + 1)"] o2 [of "bytes ! i" "bytes ! (i + 1)" "bytes ! (i + 2)"]
         o3 [of "bytes ! (i + 1)" "bytes ! (i + 2)"]  less [OF d]
      by (simp add: loop_unfold step3 dr index_sextet s1 s2 s3 s4 nth_not_pad)
  qed
qed


lemma step_no_pad: "i + 2 < length bytes \<Longrightarrow> CHR ''='' \<notin> set (toBase64_step bytes i)"
  by (simp add: step3 nth_not_pad' s1 s2 s3 s4)


lemma rem_pos: "((n::nat) - i) mod 3 = r \<Longrightarrow> 0 < r \<Longrightarrow> i < n"
  by (cases "i < n") auto

lemma rem_step: "((n::nat) - i) mod 3 = r \<Longrightarrow> i + 2 < n \<Longrightarrow> (n - (i + 3)) mod 3 = r"
proof -
  assume a: "(n - i) mod 3 = r" "i + 2 < n"
  then have "n - i = (n - (i + 3)) + 3" by simp
  with a show ?thesis by (metis mod_add_self2)
qed

lemma rem0_three: "((n::nat) - i) mod 3 = 0 \<Longrightarrow> i < n \<Longrightarrow> i + 2 < n"
  by (cases "n = i + 1"; cases "n = i + 2") auto

lemma rem1_three: "((n::nat) - i) mod 3 = 1 \<Longrightarrow> i + 1 \<noteq> n \<Longrightarrow> i + 2 < n"
  by (cases "i < n"; cases "n = i + 2") auto

lemma rem2_three: "((n::nat) - i) mod 3 = 2 \<Longrightarrow> i + 2 \<noteq> n \<Longrightarrow> i + 2 < n"
  by (cases "i < n"; cases "n = i + 1") auto

lemma no_pad_loop: "(length bytes - i) mod 3 = 0 \<Longrightarrow> CHR ''='' \<notin> set (toBase64_loop bytes i [])"
proof (induction "length bytes - i" arbitrary: i rule: less_induct)
  case less
  show ?case
  proof (cases "i < length bytes")
    case False
    then show ?thesis by (simp add: loop_done)
  next
    case True
    with less.prems have 3: "i + 2 < length bytes" by (rule rem0_three)
    then have d: "length bytes - (i + 3) < length bytes - i" by simp
    from less.prems 3 have "(length bytes - (i + 3)) mod 3 = 0" by (rule rem_step)
    from less.hyps [OF d this] step_no_pad [OF 3] True show ?thesis
      by (simp add: loop_unfold)
  qed
qed

lemma pad2_loop: "(length bytes - i) mod 3 = 1 \<Longrightarrow> suffix ''=='' (toBase64_loop bytes i [])"
proof (induction "length bytes - i" arbitrary: i rule: less_induct)
  case less
  from less.prems have lt: "i < length bytes" by (rule rem_pos) simp
  show ?case
  proof (cases "i + 1 = length bytes")
    case True
    then show ?thesis by (simp add: loop_unfold loop_done step1 suffix_def)
  next
    case False
    with less.prems have 3: "i + 2 < length bytes" by (rule rem1_three)
    then have d: "length bytes - (i + 3) < length bytes - i" by simp
    from less.prems 3 have "(length bytes - (i + 3)) mod 3 = 1" by (rule rem_step)
    from less.hyps [OF d this] have "suffix ''=='' (toBase64_step bytes i @ toBase64_loop bytes (i + 3) [])"
      by (rule suffix_appendI)
    then show ?thesis using lt by (simp add: loop_unfold)
  qed
qed

lemma pad1_loop: "(length bytes - i) mod 3 = 2 \<Longrightarrow>
  \<exists>pre c. toBase64_loop bytes i [] = pre @ [c, CHR ''=''] \<and> c \<noteq> CHR ''=''"
proof (induction "length bytes - i" arbitrary: i rule: less_induct)
  case less
  from less.prems have lt: "i < length bytes" by (rule rem_pos) simp
  show ?case
  proof (cases "i + 2 = length bytes")
    case True
    have "toBase64_loop bytes i [] = [BASE64_CHARS ! unat (sextet1 (bytes ! i)),
        BASE64_CHARS ! unat (sextet2 (bytes ! i) (bytes ! (i + 1)))] @
        [BASE64_CHARS ! unat (sextet3 (bytes ! (i + 1)) 0), CHR ''='']"
      using True by (simp add: loop_unfold loop_done step2)
    then show ?thesis using nth_not_pad [OF s3] by blast
  next
    case False
    with less.prems have 3: "i + 2 < length bytes" by (rule rem2_three)
    then have d: "length bytes - (i + 3) < length bytes - i" by simp
    from less.prems 3 have "(length bytes - (i + 3)) mod 3 = 2" by (rule rem_step)
    from less.hyps [OF d this] obtain pre c where
      "toBase64_loop bytes (i + 3) [] = pre @ [c, CHR ''='']" "c \<noteq> CHR ''=''" by blast
    then have "toBase64_loop bytes i [] = (toBase64_step bytes i @ pre) @ [c, CHR ''='']"
      using lt by (simp add: loop_unfold)
    with \<open>c \<noteq> CHR ''=''\<close> show ?thesis by blast
  qed
qed

text \<open>
  Claim C8. For every byte sequence \<open>b\<close>, the reference decoder applied to
  \<open>toBase64 b\<close> gives \<open>b\<close> back; an input of length \<open>3k\<close> is encoded without the
  padding symbol, one of length \<open>3k+1\<close> ends in \<open>==\<close>, and one of length \<open>3k+2\<close> ends in
  exactly one \<open>=\<close>.
\<close>

theorem toBase64_rfc4648:
  "fromBase64 (toBase64 b) = Some b \<and>
   (length b mod 3 = 0 \<longrightarrow> CHR ''='' \<notin> set (toBase64 b)) \<and>
   (length b mod 3 = 1 \<longrightarrow> suffix ''=='' (toBase64 b)) \<and>
   (length b mod 3 = 2 \<longrightarrow> suffix ''='' (toBase64 b) \<and> \<not> suffix ''=='' (toBase64 b))"
proof -
  have 1: "fromBase64 (toBase64 b) = Some b"
    using decode_loop [of b 0] by (simp add: toBase64_def)
  have 2: "length b mod 3 = 0 \<longrightarrow> CHR ''='' \<notin> set (toBase64 b)"
    using no_pad_loop [of b 0] by (simp add: toBase64_def)
  have 3: "length b mod 3 = 1 \<longrightarrow> suffix ''=='' (toBase64 b)"
    using pad2_loop [of b 0] by (simp add: toBase64_def)
  have 4: "length b mod 3 = 2 \<longrightarrow> suffix ''='' (toBase64 b) \<and> \<not> suffix ''=='' (toBase64 b)"
  proof
    assume "length b mod 3 = 2"
    then obtain pre c where out: "toBase64 b = pre @ [c, CHR ''='']" and c: "c \<noteq> CHR ''=''"
      using pad1_loop [of b 0] by (auto simp: toBase64_def)
    have "suffix ''='' (toBase64 b)"
      unfolding out suffix_def by (rule exI [of _ "pre @ [c]"]) simp
    moreover have "\<not> suffix ''=='' (toBase64 b)"
    proof
      assume "suffix ''=='' (toBase64 b)"
      then obtain zs where "pre @ [c, CHR ''=''] = zs @ ''==''" unfolding out suffix_def by blast
      then have "(pre @ [c]) @ ''='' = (zs @ ''='') @ ''=''" by simp
      then have "pre @ [c] = zs @ ''=''" by (simp only: append_same_eq)
      with c show False by simp
    qed
    ultimately show "suffix ''='' (toBase64 b) \<and> \<not> suffix ''=='' (toBase64 b)" ..
  qed
  from 1 2 3 4 show ?thesis by blast
qed

text \<open>
  The theorem at the test vectors of RFC 4648, section 10: \<open>foo\<close>, \<open>f\<close> and \<open>fo\<close>.
\<close>

theorem toBase64_rfc4648_witness:
  "fromBase64 (toBase64 [102, 111, 111]) = Some [102, 111, 111] \<and> toBase64 [102, 111, 111] = ''Zm9v'' \<and>
   length [102 :: 8 word] mod 3 = 1 \<and> suffix ''=='' (toBase64 [102]) \<and> toBase64 [102] = ''Zg=='' \<and>
   length [102 :: 8 word, 111] mod 3 = 2 \<and> suffix ''='' (toBase64 [102, 111]) \<and> toBase64 [102, 111] = ''Zm8=''"
  using toBase64_rfc4648 [of "[102, 111, 111]"] toBase64_rfc4648 [of "[102]"] toBase64_rfc4648 [of "[102, 111]"]
  by (simp add: toBase64_def toBase64_loop.simps toBase64_step_def BASE64_CHARS_def)

section \<open>Properties of JSON text\<close>

text \<open>
  What \<open>JSON.stringify\<close> writes for a string, \<open>JSON.parse\<close> reads back: the lexer undoes
  every escape that \<open>escape_char\<close> produces.
\<close>

lemma hex_value_digit: "k < 16 \<Longrightarrow> hex_value (hex_digit k) = Some k"
proof -
  have "\<forall>k \<in> set [0 ..< 16]. hex_value (hex_digit k) = Some k"
    by (simp add: hex_value_def hex_digit_def upt_rec)
  moreover assume "k < 16"
  ultimately show ?thesis by simp
qed

lemma hex_value_zero: "hex_value CHR ''0'' = Some 0"
  by (simp add: hex_value_def upt_rec)

lemma lex_escape_char:
  "lex_string (escape_char c @ xs) = map_option (\<lambda>(s, r). (c # s, r)) (lex_string xs)"
proof -
  consider (q) "c = CHR 0x22" | (b) "c = CHR 0x5C" | (bs) "c = CHR 0x08" | (ff) "c = CHR 0x0C"
    | (nl) "c = CHR 0x0A" | (cr) "c = CHR 0x0D" | (tab) "c = CHR 0x09"
    | (ctl) "c \<notin> {CHR 0x22, CHR 0x5C, CHR 0x08, CHR 0x0C, CHR 0x0A, CHR 0x0D, CHR 0x09}"
        "of_char c < (32 :: nat)"
    | (plain) "c \<notin> {CHR 0x22, CHR 0x5C, CHR 0x08, CHR 0x0C, CHR 0x0A, CHR 0x0D, CHR 0x09}"
        "\<not> of_char c < (32 :: nat)"
    by blast
  then show ?thesis
  proof cases
    case ctl
    let ?n = "of_char c :: nat"
    have hi: "hex_value (hex_digit (?n div 16)) = Some (?n div 16)"
      using ctl(2) by (intro hex_value_digit) simp
    have lo: "hex_value (hex_digit (?n mod 16)) = Some (?n mod 16)"
      by (intro hex_value_digit) simp
    have "char_of (?n div 16 * 16 + ?n mod 16) = c" by simp
    with ctl hi lo show ?thesis
      by (simp add: escape_char_def hex_value_zero)
  qed (simp_all add: escape_char_def simple_escape_def)
qed

lemma lex_string_quote:
  "lex_string (concat (map escape_char s) @ CHR 0x22 # rest) = Some (s, rest)"
  by (induction s) (simp_all add: lex_escape_char)

lemma tokenize_quote:
  "tokenize (quote s @ rest) = map_option ((#) (TStr s)) (tokenize rest)"
  by (simp add: quote_def tokenize.simps is_ws_def lex_string_quote)

lemma tokenize_punct:
  "tokenize (CHR ''{'' # cs) = map_option ((#) TLBrace) (tokenize cs)"
  "tokenize (CHR ''}'' # cs) = map_option ((#) TRBrace) (tokenize cs)"
  "tokenize (CHR '':'' # cs) = map_option ((#) TColon) (tokenize cs)"
  "tokenize (CHR '','' # cs) = map_option ((#) TComma) (tokenize cs)"
  by (simp_all add: tokenize.simps is_ws_def)

lemma tokenize_bool:
  "tokenize ((if b then ''true'' else ''false'') @ CHR '','' # cs) =
     map_option ((#) (if b then TTrue else TFalse)) (tokenize (CHR '','' # cs))"
  by (simp add: tokenize.simps is_ws_def is_digit_def)

lemma tokenize_Nil: "tokenize [] = Some []"
  by (simp add: tokenize.simps)

lemma JSON_parse_Nil: "JSON_parse [] = None"
  by (simp add: JSON_parse_def tokenize.simps)

text \<open>The two envelopes the fetch functions write are read back as they were built.\<close>

lemma parse_error_envelope:
  "JSON_parse (JSON_stringify (JObj [(''error'', JStr m)])) = Some (JObj [(''error'', JStr m)])"
proof -
  have "JSON_stringify (JObj [(''error'', JStr m)]) =
          CHR ''{'' # quote ''error'' @ CHR '':'' # quote m @ ''}''"
    by (simp add: JSON_stringify.simps)
  then show ?thesis
    by (simp add: JSON_parse_def tokenize_quote tokenize_punct tokenize_Nil)
qed

lemma parse_forward_result:
  "k \<noteq> ''success'' \<Longrightarrow>
   JSON_parse (JSON_stringify (JObj [(''success'', JBool b), (k, JStr m)])) =
     Some (JObj [(''success'', JBool b), (k, JStr m)])"
proof -
  assume k: "k \<noteq> ''success''"
  have "JSON_stringify (JObj [(''success'', JBool b), (k, JStr m)]) =
          CHR ''{'' # quote ''success'' @ CHR '':'' # (if b then ''true'' else ''false'') @
          CHR '','' # quote k @ CHR '':'' # quote m @ ''}''"
    by (simp add: JSON_stringify.simps)
  with k show ?thesis
    by (simp add: JSON_parse_def tokenize_quote tokenize_punct tokenize_bool tokenize_Nil)
qed

text \<open>Rules that evaluate the model on concrete inputs.\<close>

lemmas json_eval =
  JSON_parse_def tokenize.simps is_ws_def is_digit_def hex_value_def simple_escape_def
  lex_number_def lex_fraction_def lex_exponent_def
  JSON_stringify.simps quote_def escape_char_def hex_digit_def
  JSON_parse_value_def get_prop_def num_is_zero_def

lemmas service_eval =
  test_runtime_def answers_def completion_body_def
  run_consensus_def consensusIdenticalAggregation_def
  sendRequest_def sendRequest_fetchAndParse_def sendRequest_try_def extract_content_def
  sendToServer_def sendToServer_fetchAndParse_def sendToServer_try_def
  getTradingDecisions_def show_nat.simps error_text_def error_toString_def


section \<open>Properties of the consensus step\<close>

lemma consensus_agreed:
  "consensusIdenticalAggregation failure results = Inr r \<Longrightarrow>
   r \<in> set results \<and> (\<forall>x \<in> set results. x = r)"
  by (auto simp: consensusIdenticalAggregation_def list_all_iff split: list.splits if_splits)

lemma consensus_failed:
  "consensusIdenticalAggregation failure results = Inl e \<Longrightarrow> e = failure"
  by (auto simp: consensusIdenticalAggregation_def split: list.splits if_splits)

lemma consensus_identical:
  "results \<noteq> [] \<Longrightarrow> \<forall>x \<in> set results. x = r \<Longrightarrow>
   consensusIdenticalAggregation failure results = Inr r"
  by (cases results) (auto simp: consensusIdenticalAggregation_def list_all_iff)


lemma run_consensus_all:
  "executions rt \<noteq> [] \<Longrightarrow> \<forall>t \<in> set (executions rt). f t = r \<Longrightarrow> run_consensus rt f = Inr r"
  unfolding run_consensus_def by (rule consensus_identical) auto

lemma run_consensus_agreed:
  "run_consensus rt f = Inr r \<Longrightarrow>
   (\<exists>t \<in> set (executions rt). f t = r) \<and> (\<forall>t \<in> set (executions rt). f t = r)"
  unfolding run_consensus_def by (auto dest!: consensus_agreed)


section \<open>Properties of the Model Gateway\<close>

lemma sendRequest_fetch_non200:
  "sendRequester (sendRequest_req apiKey payload) = Inr resp \<Longrightarrow> statusCode resp \<noteq> 200 \<Longrightarrow>
   sendRequest_fetchAndParse apiKey payload sendRequester =
     JStr (JSON_stringify
       (JObj [(''error'', JStr (''HTTP '' @ show_nat (statusCode resp) @ '': '' @ body resp))]))"
  by (simp add: sendRequest_fetchAndParse_def sendRequest_try_def)

lemma sendRequest_error_envelope:
  "run_consensus rt (sendRequest_fetchAndParse apiKey payload) =
     Inr (JStr (JSON_stringify (JObj [(''error'', JStr m)]))) \<Longrightarrow> m \<noteq> [] \<Longrightarrow>
   sendRequest rt apiKey payload = JNull"
  by (simp add: sendRequest_def JSON_parse_value_def parse_error_envelope get_prop_def)

lemma sendRequest_failed:
  "run_consensus rt (sendRequest_fetchAndParse apiKey payload) = Inl e \<Longrightarrow>
   sendRequest rt apiKey payload = JNull"
  by (simp add: sendRequest_def)


text \<open>
  Claim C7. A provider response with a status code other than 200 is mapped by the fetch
  function to the text \<open>{"error":"HTTP <code>: <body>"}\<close>, and \<open>sendRequest\<close> then returns
  \<open>null\<close>: when every execution of the call gets such a response, no completion comes back.
\<close>

theorem sendRequest_non200_null:
  assumes "\<forall>t \<in> set (executions rt). \<exists>resp.
             t (sendRequest_req apiKey payload) = Inr resp \<and> statusCode resp \<noteq> 200"
  shows "(\<forall>t \<in> set (executions rt). \<exists>resp.
             t (sendRequest_req apiKey payload) = Inr resp \<and>
             sendRequest_fetchAndParse apiKey payload t =
               JStr (JSON_stringify
                 (JObj [(''error'', JStr (''HTTP '' @ show_nat (statusCode resp) @ '': '' @ body resp))])))
         \<and> sendRequest rt apiKey payload = JNull"
proof -
  define msg where "msg resp = ''HTTP '' @ show_nat (statusCode resp) @ '': '' @ body resp"
    for resp :: response
  define envelope where "envelope resp = JStr (JSON_stringify (JObj [(''error'', JStr (msg resp))]))"
    for resp :: response
  have fetch: "\<exists>resp. t (sendRequest_req apiKey payload) = Inr resp \<and>
                 sendRequest_fetchAndParse apiKey payload t = envelope resp"
    if "t \<in> set (executions rt)" for t
  proof -
    from assms that obtain resp where
      resp: "t (sendRequest_req apiKey payload) = Inr resp" "statusCode resp \<noteq> 200"
      by blast
    then have "sendRequest_fetchAndParse apiKey payload t = envelope resp"
      unfolding envelope_def msg_def by (rule sendRequest_fetch_non200)
    with resp show ?thesis by blast
  qed
  have null: "sendRequest rt apiKey payload = JNull"
  proof (cases "run_consensus rt (sendRequest_fetchAndParse apiKey payload)")
    case (Inl e)
    then show ?thesis by (rule sendRequest_failed)
  next
    case (Inr r)
    then obtain t where "t \<in> set (executions rt)" "r = sendRequest_fetchAndParse apiKey payload t"
      by (blast dest: run_consensus_agreed)
    with fetch obtain resp where "r = envelope resp" by metis
    with Inr have "run_consensus rt (sendRequest_fetchAndParse apiKey payload) =
        Inr (JStr (JSON_stringify (JObj [(''error'', JStr (msg resp))])))"
      by (simp add: envelope_def)
    moreover have "msg resp \<noteq> []" by (simp add: msg_def)
    ultimately show ?thesis by (rule sendRequest_error_envelope)
  qed
  from fetch null show ?thesis unfolding envelope_def msg_def by blast
qed

text \<open>The theorem at two executions that both get \<open>404 Not Found\<close>.\<close>

theorem sendRequest_non200_null_witness:
  \<open>answers 404 ''Not Found'' (sendRequest_req ''key'' (JObj [])) =
      Inr \<lparr> statusCode = 404, body = ''Not Found'' \<rparr> \<and>
    sendRequest_fetchAndParse ''key'' (JObj []) (answers 404 ''Not Found'') =
      JStr ''{"error":"HTTP 404: Not Found"}'' \<and>
    sendRequest (test_runtime [answers 404 ''Not Found'', answers 404 ''Not Found''] []) ''key'' (JObj [])
      = JNull\<close>
  using sendRequest_non200_null
    [of "test_runtime [answers 404 ''Not Found'', answers 404 ''Not Found''] []" "''key''" "JObj []"]
  by (simp add: test_runtime_def answers_def show_nat.simps quote_def escape_char_def
      JSON_stringify.simps)







section \<open>Properties of the Callback Forwarder\<close>

lemma server_fetch_threw:
  "t (sendToServer_req serverUrl data hdrs) = Inl e \<Longrightarrow>
   sendToServer_fetchAndParse serverUrl data hdrs t =
     JStr (JSON_stringify (JObj [(''success'', JBool False), (''error'', JStr (error_text e))]))"
  by (simp add: sendToServer_fetchAndParse_def sendToServer_try_def)

lemma server_fetch_2xx:
  "t (sendToServer_req serverUrl data hdrs) = Inr resp \<Longrightarrow>
   200 \<le> statusCode resp \<and> statusCode resp < 300 \<Longrightarrow>
   sendToServer_fetchAndParse serverUrl data hdrs t =
     JStr (JSON_stringify (JObj [(''success'', JBool True), (''response'', JStr (body resp))]))"
  by (simp add: sendToServer_fetchAndParse_def sendToServer_try_def)

lemma server_fetch_other:
  "t (sendToServer_req serverUrl data hdrs) = Inr resp \<Longrightarrow>
   \<not> (200 \<le> statusCode resp \<and> statusCode resp < 300) \<Longrightarrow>
   sendToServer_fetchAndParse serverUrl data hdrs t =
     JStr (JSON_stringify (JObj [(''success'', JBool False),
        (''error'', JStr (''HTTP '' @ show_nat (statusCode resp) @ '': '' @ body resp))]))"
  by (auto simp: sendToServer_fetchAndParse_def sendToServer_try_def)

lemma sendToServer_agreed:
  "run_consensus rt (sendToServer_fetchAndParse serverUrl data hdrs) =
     Inr (JStr (JSON_stringify (JObj [(''success'', JBool b), (k, JStr m)]))) \<Longrightarrow>
   k \<noteq> ''success'' \<Longrightarrow>
   sendToServer rt serverUrl data hdrs = JObj [(''success'', JBool b), (k, JStr m)]"
  by (simp add: sendToServer_def JSON_parse_value_def parse_forward_result)

lemma sendToServer_failed:
  "run_consensus rt (sendToServer_fetchAndParse serverUrl data hdrs) = Inl e \<Longrightarrow>
   sendToServer rt serverUrl data hdrs =
     JObj [(''success'', JBool False), (''error'', JStr (error_text (consensus_failure rt)))]"
  by (auto simp: sendToServer_def run_consensus_def dest: consensus_failed)


text \<open>
  The result is always one of the two shapes, and it is the success shape only for a
  response of some execution with a status code from 200 to 299.
\<close>

lemma sendToServer_shape:
  "(\<exists>text. sendToServer rt serverUrl data hdrs =
        JObj [(''success'', JBool True), (''response'', JStr text)] \<and>
        (\<exists>t \<in> set (executions rt). \<exists>resp.
            t (sendToServer_req serverUrl data hdrs) = Inr resp \<and>
            200 \<le> statusCode resp \<and> statusCode resp < 300 \<and> body resp = text))
    \<or> (\<exists>message. sendToServer rt serverUrl data hdrs =
        JObj [(''success'', JBool False), (''error'', JStr message)])"
proof (cases "run_consensus rt (sendToServer_fetchAndParse serverUrl data hdrs)")
  case (Inl e)
  from sendToServer_failed [OF this] show ?thesis by blast
next
  case (Inr r)
  then obtain t where t: "t \<in> set (executions rt)"
    and r: "sendToServer_fetchAndParse serverUrl data hdrs t = r"
    by (blast dest: run_consensus_agreed)
  show ?thesis
  proof (cases "t (sendToServer_req serverUrl data hdrs)")
    case (Inl e)
    from server_fetch_threw [where t = t, OF this] r Inr
    have "sendToServer rt serverUrl data hdrs =
        JObj [(''success'', JBool False), (''error'', JStr (error_text e))]"
      by (intro sendToServer_agreed) simp_all
    then show ?thesis by blast
  next
    case resp: (Inr resp)
    show ?thesis
    proof (cases "200 \<le> statusCode resp \<and> statusCode resp < 300")
      case True
      from server_fetch_2xx [where t = t, OF resp True] r Inr
      have "sendToServer rt serverUrl data hdrs =
          JObj [(''success'', JBool True), (''response'', JStr (body resp))]"
        by (intro sendToServer_agreed) simp_all
      with t resp True show ?thesis by blast
    next
      case False
      from server_fetch_other [where t = t, OF resp False] r Inr
      have "sendToServer rt serverUrl data hdrs =
          JObj [(''success'', JBool False),
                (''error'', JStr (''HTTP '' @ show_nat (statusCode resp) @ '': '' @ body resp))]"
        by (intro sendToServer_agreed) simp_all
      then show ?thesis by blast
    qed
  qed
qed

lemma sendToServer_same_response:
  assumes "executions rt \<noteq> []"
    and "\<forall>t \<in> set (executions rt). t (sendToServer_req serverUrl data hdrs) = Inr resp"
  shows "sendToServer rt serverUrl data hdrs =
          (if 200 \<le> statusCode resp \<and> statusCode resp < 300
           then JObj [(''success'', JBool True), (''response'', JStr (body resp))]
           else JObj [(''success'', JBool False),
                      (''error'', JStr (''HTTP '' @ show_nat (statusCode resp) @ '': '' @ body resp))])"
proof (cases "200 \<le> statusCode resp \<and> statusCode resp < 300")
  let ?f = "sendToServer_fetchAndParse serverUrl data hdrs"
  case True
  have "?f t = JStr (JSON_stringify (JObj [(''success'', JBool True), (''response'', JStr (body resp))]))"
    if "t \<in> set (executions rt)" for t
    using assms that by (intro server_fetch_2xx True) blast
  with assms have "run_consensus rt ?f =
      Inr (JStr (JSON_stringify (JObj [(''success'', JBool True), (''response'', JStr (body resp))])))"
    by (intro run_consensus_all) blast+
  from sendToServer_agreed [OF this] True show ?thesis by simp
next
  let ?f = "sendToServer_fetchAndParse serverUrl data hdrs"
  case False
  have "?f t = JStr (JSON_stringify (JObj [(''success'', JBool False),
           (''error'', JStr (''HTTP '' @ show_nat (statusCode resp) @ '': '' @ body resp))]))"
    if "t \<in> set (executions rt)" for t
    using assms that by (intro server_fetch_other False) blast
  with assms have "run_consensus rt ?f =
      Inr (JStr (JSON_stringify (JObj [(''success'', JBool False),
           (''error'', JStr (''HTTP '' @ show_nat (statusCode resp) @ '': '' @ body resp))])))"
    by (intro run_consensus_all) blast+
  from sendToServer_agreed [OF this] False show ?thesis by simp
qed

lemma sendToServer_same_exception:
  assumes "executions rt \<noteq> []"
    and "\<forall>t \<in> set (executions rt). t (sendToServer_req serverUrl data hdrs) = Inl e"
  shows "sendToServer rt serverUrl data hdrs =
          JObj [(''success'', JBool False), (''error'', JStr (error_text e))]"
proof -
  let ?f = "sendToServer_fetchAndParse serverUrl data hdrs"
  have "?f t = JStr (JSON_stringify (JObj [(''success'', JBool False), (''error'', JStr (error_text e))]))"
    if "t \<in> set (executions rt)" for t
    using assms that by (intro server_fetch_threw) blast
  with assms have "run_consensus rt ?f =
      Inr (JStr (JSON_stringify (JObj [(''success'', JBool False), (''error'', JStr (error_text e))])))"
    by (intro run_consensus_all) blast+
  from sendToServer_agreed [OF this] show ?thesis by simp
qed


text \<open>
  Claim C9. \<open>sendToServer\<close> always returns a value, and the value is
  \<open>{success: true, response: <body>}\<close> or \<open>{success: false, error: <message>}\<close>. It is the
  first only for a response with a status code from 200 to 299, whose body it carries. When
  the executions get one response, the result is the first shape for a status code from 200
  to 299 and \<open>{success: false, error: "HTTP <code>: <body>"}\<close> for any other; when they
  all throw one exception, the result carries its message.
\<close>

theorem sendToServer_outcome:
  "((\<exists>text. sendToServer rt serverUrl data hdrs =
        JObj [(''success'', JBool True), (''response'', JStr text)] \<and>
        (\<exists>t \<in> set (executions rt). \<exists>resp.
            t (sendToServer_req serverUrl data hdrs) = Inr resp \<and>
            200 \<le> statusCode resp \<and> statusCode resp < 300 \<and> body resp = text))
    \<or> (\<exists>message. sendToServer rt serverUrl data hdrs =
        JObj [(''success'', JBool False), (''error'', JStr message)]))
   \<and> (executions rt \<noteq> [] \<and>
        (\<forall>t \<in> set (executions rt). t (sendToServer_req serverUrl data hdrs) = Inr resp) \<longrightarrow>
        sendToServer rt serverUrl data hdrs =
          (if 200 \<le> statusCode resp \<and> statusCode resp < 300
           then JObj [(''success'', JBool True), (''response'', JStr (body resp))]
           else JObj [(''success'', JBool False),
                      (''error'', JStr (''HTTP '' @ show_nat (statusCode resp) @ '': '' @ body resp))]))
   \<and> (executions rt \<noteq> [] \<and>
        (\<forall>t \<in> set (executions rt). t (sendToServer_req serverUrl data hdrs) = Inl e) \<longrightarrow>
        sendToServer rt serverUrl data hdrs =
          JObj [(''success'', JBool False), (''error'', JStr (error_text e))])"
proof (intro conjI impI)
  show "(\<exists>text. sendToServer rt serverUrl data hdrs =
        JObj [(''success'', JBool True), (''response'', JStr text)] \<and>
        (\<exists>t \<in> set (executions rt). \<exists>resp.
            t (sendToServer_req serverUrl data hdrs) = Inr resp \<and>
            200 \<le> statusCode resp \<and> statusCode resp < 300 \<and> body resp = text))
    \<or> (\<exists>message. sendToServer rt serverUrl data hdrs =
        JObj [(''success'', JBool False), (''error'', JStr message)])"
    by (rule sendToServer_shape)
next
  assume "executions rt \<noteq> [] \<and>
        (\<forall>t \<in> set (executions rt). t (sendToServer_req serverUrl data hdrs) = Inr resp)"
  then show "sendToServer rt serverUrl data hdrs =
          (if 200 \<le> statusCode resp \<and> statusCode resp < 300
           then JObj [(''success'', JBool True), (''response'', JStr (body resp))]
           else JObj [(''success'', JBool False),
                      (''error'', JStr (''HTTP '' @ show_nat (statusCode resp) @ '': '' @ body resp))])"
    by (intro sendToServer_same_response) blast+
next
  assume "executions rt \<noteq> [] \<and>
        (\<forall>t \<in> set (executions rt). t (sendToServer_req serverUrl data hdrs) = Inl e)"
  then show "sendToServer rt serverUrl data hdrs =
          JObj [(''success'', JBool False), (''error'', JStr (error_text e))]"
    by (intro sendToServer_same_exception) blast+
qed

text \<open>The theorem at a 201 response, a 500 response and a transport that throws.\<close>

theorem sendToServer_outcome_witness:
  \<open>sendToServer (test_runtime [answers 201 ''created''] []) ''http://cb'' (JObj []) None =
      JObj [(''success'', JBool True), (''response'', JStr ''created'')] \<and>
    sendToServer (test_runtime [answers 500 ''boom''] []) ''http://cb'' (JObj []) None =
      JObj [(''success'', JBool False), (''error'', JStr ''HTTP 500: boom'')] \<and>
    sendToServer (test_runtime [\<lambda>req. Inl (JsError ''Error'' ''socket closed'')] []) ''http://cb''
        (JObj []) None =
      JObj [(''success'', JBool False), (''error'', JStr ''socket closed'')]\<close>
  using
    sendToServer_outcome [of "test_runtime [answers 201 ''created''] []" "''http://cb''" "JObj []" None
      "\<lparr> statusCode = 201, body = ''created'' \<rparr>"]
    sendToServer_outcome [of "test_runtime [answers 500 ''boom''] []" "''http://cb''" "JObj []" None
      "\<lparr> statusCode = 500, body = ''boom'' \<rparr>"]
    sendToServer_outcome [of "test_runtime [\<lambda>req. Inl (JsError ''Error'' ''socket closed'')] []"
       "''http://cb''" "JObj []" None _ "JsError ''Error'' ''socket closed''"]
  by (simp add: test_runtime_def answers_def show_nat.simps error_text_def)

text \<open>
  Claim C4, as amended. The headers of the callback request always have a \<open>Content-Type\<close>
  entry, and the caller cannot remove it. Without caller headers it is the only entry, with
  the value \<open>application/json\<close>, and it keeps that value when the caller's headers have no
  \<open>Content-Type\<close> of their own. Every entry of the caller's headers is in the request with
  the caller's value, the \<open>Content-Type\<close> entry included: a caller that supplies one
  replaces the default value.
\<close>

theorem sendToServer_headers:
  "headers (sendToServer_req serverUrl data hdrs) ''Content-Type'' \<noteq> None
   \<and> (hdrs = None \<longrightarrow>
        headers (sendToServer_req serverUrl data hdrs) = [''Content-Type'' \<mapsto> ''application/json''])
   \<and> (hdrs = Some h \<and> h ''Content-Type'' = None \<longrightarrow>
        headers (sendToServer_req serverUrl data hdrs) ''Content-Type'' = Some ''application/json'')
   \<and> (hdrs = Some h \<and> h name = Some v \<longrightarrow>
        headers (sendToServer_req serverUrl data hdrs) name = Some v)"
  by (auto simp: sendToServer_req_def map_add_def split: option.splits)

text \<open>The theorem at a caller that adds one header of its own, and at no caller headers.\<close>

theorem sendToServer_headers_witness:
  "headers (sendToServer_req ''http://cb'' (JObj []) (Some [''X-Trace'' \<mapsto> ''1''])) ''Content-Type''
     = Some ''application/json'' \<and>
   headers (sendToServer_req ''http://cb'' (JObj []) (Some [''X-Trace'' \<mapsto> ''1''])) ''X-Trace''
     = Some ''1'' \<and>
   headers (sendToServer_req ''http://cb'' (JObj []) None) = [''Content-Type'' \<mapsto> ''application/json'']"
  using sendToServer_headers [of "''http://cb''" "JObj []" "Some [''X-Trace'' \<mapsto> ''1'']"
      "[''X-Trace'' \<mapsto> ''1'']" "''X-Trace''" "''1''"]
    sendToServer_headers [of "''http://cb''" "JObj []" None]
  by simp

text \<open>
  The claim as stated fails: a caller that passes \<open>Content-Type: text/plain\<close> displaces the
  default, and the request goes out with \<open>text/plain\<close>.
\<close>

theorem content_type_displaced_counterexample:
  "headers (sendToServer_req ''http://cb'' (JObj []) (Some [''Content-Type'' \<mapsto> ''text/plain'']))
     ''Content-Type'' = Some ''text/plain'' \<and>
   headers (sendToServer_req ''http://cb'' (JObj []) (Some [''Content-Type'' \<mapsto> ''text/plain'']))
     ''Content-Type'' \<noteq> Some ''application/json''"
  by (simp add: sendToServer_req_def)

section \<open>Consensus over both outbound calls\<close>







section \<open>Properties of \<open>getTradingDecisions\<close> and of the interpretation step\<close>

lemma parsedResponse_not_json:
  "JSON_parse text = None \<Longrightarrow> parsedResponse (JStr text) = JObj [(''raw_response'', JStr text)]"
  by (simp add: parsedResponse_def JSON_parse_value_def)

text \<open>
  Claim C10. \<open>getTradingDecisions\<close> returns \<open>null\<close> when \<open>sendRequest\<close> returns \<open>null\<close> and
  when the completion text is not valid JSON; in that second case the text is dropped, where
  the handler wraps it as \<open>{raw_response: text}\<close>. When the text is valid JSON, the parsed
  value is returned whatever its shape.
\<close>

theorem getTradingDecisions_result:
  "(sendRequest rt apiKey payload = JNull \<longrightarrow> getTradingDecisions rt apiKey payload = JNull)
   \<and> (sendRequest rt apiKey payload = JStr text \<and> JSON_parse text = None \<longrightarrow>
        getTradingDecisions rt apiKey payload = JNull \<and>
        parsedResponse (JStr text) = JObj [(''raw_response'', JStr text)])
   \<and> (sendRequest rt apiKey payload = JStr text \<and> JSON_parse text = Some v \<longrightarrow>
        getTradingDecisions rt apiKey payload = v)"
proof (intro conjI impI)
  assume "sendRequest rt apiKey payload = JNull"
  then show "getTradingDecisions rt apiKey payload = JNull"
    by (simp add: getTradingDecisions_def)
next
  assume a: "sendRequest rt apiKey payload = JStr text \<and> JSON_parse text = None"
  then show "getTradingDecisions rt apiKey payload = JNull"
    by (simp add: getTradingDecisions_def JSON_parse_value_def)
  from a show "parsedResponse (JStr text) = JObj [(''raw_response'', JStr text)]"
    by (simp add: parsedResponse_not_json)
next
  assume a: "sendRequest rt apiKey payload = JStr text \<and> JSON_parse text = Some v"
  then have "text \<noteq> []" using JSON_parse_Nil by auto
  with a show "getTradingDecisions rt apiKey payload = v"
    by (simp add: getTradingDecisions_def JSON_parse_value_def)
qed

text \<open>
  The theorem at a call with no execution, at the completion \<open>not json\<close>, and at the
  completion \<open>["buy"]\<close>, which is valid JSON and no \<open>TradingDecisionResponse\<close>.
\<close>

lemma sendRequest_not_json:
  "sendRequest (test_runtime [answers 200 (completion_body ''not json'')] []) ''k'' (JObj [])
     = JStr ''not json''"
  by (simp add: json_eval service_eval)

lemma sendRequest_array:
  \<open>sendRequest (test_runtime [answers 200 (completion_body ''["buy"]'')] []) ''k'' (JObj [])
     = JStr ''["buy"]''\<close>
  by (simp add: json_eval service_eval)

lemma sendRequest_no_executor: "sendRequest (test_runtime [] []) ''k'' (JObj []) = JNull"
  by (simp add: service_eval)

theorem getTradingDecisions_result_witness:
  \<open>getTradingDecisions (test_runtime [] []) ''k'' (JObj []) = JNull \<and>
    getTradingDecisions (test_runtime [answers 200 (completion_body ''not json'')] []) ''k'' (JObj [])
      = JNull \<and>
    parsedResponse (JStr ''not json'') = JObj [(''raw_response'', JStr ''not json'')] \<and>
    getTradingDecisions (test_runtime [answers 200 (completion_body ''["buy"]'')] []) ''k'' (JObj [])
      = JArr [JStr ''buy''] \<and>
    \<not> is_TradingDecisionResponse (JArr [JStr ''buy''])\<close>
proof -
  have n: "JSON_parse ''not json'' = None" by (simp add: json_eval)
  have a: \<open>JSON_parse ''["buy"]'' = Some (JArr [JStr ''buy''])\<close> by (simp add: json_eval)
  from getTradingDecisions_result [of "test_runtime [] []" "''k''" "JObj []"] sendRequest_no_executor
  have 1: "getTradingDecisions (test_runtime [] []) ''k'' (JObj []) = JNull" by blast
  from getTradingDecisions_result [of "test_runtime [answers 200 (completion_body ''not json'')] []"
      "''k''" "JObj []" "''not json''"] sendRequest_not_json n
  have 2: "getTradingDecisions (test_runtime [answers 200 (completion_body ''not json'')] []) ''k'' (JObj [])
      = JNull \<and>
    parsedResponse (JStr ''not json'') = JObj [(''raw_response'', JStr ''not json'')]" by blast
  from getTradingDecisions_result [of \<open>test_runtime [answers 200 (completion_body ''["buy"]'')] []\<close>
      "''k''" "JObj []" \<open>''["buy"]''\<close> "JArr [JStr ''buy'']"] sendRequest_array a
  have 3: \<open>getTradingDecisions (test_runtime [answers 200 (completion_body ''["buy"]'')] []) ''k'' (JObj [])
      = JArr [JStr ''buy'']\<close> by blast
  have 4: "\<not> is_TradingDecisionResponse (JArr [JStr ''buy''])"
    by (simp add: is_TradingDecisionResponse_def)
  from 1 2 3 4 show ?thesis by blast
qed










section \<open>Properties of the HTTP-trigger handler\<close>








end
